theory Spec2Isabelle
  imports Main
begin

section \<open>Python string operations used by the program\<close>

text \<open>
  A Python \<open>str\<close> is modelled as an Isabelle \<open>string\<close>; the model covers the code points
  below 256.
\<close>

definition startswith :: "string \<Rightarrow> string \<Rightarrow> bool" where
  \<comment> \<open>\<open>s.startswith(p)\<close>\<close>
  "startswith s p \<longleftrightarrow> take (length p) s = p"

definition endswith :: "string \<Rightarrow> string \<Rightarrow> bool" where
  \<comment> \<open>\<open>s.endswith(p)\<close>\<close>
  "endswith s p \<longleftrightarrow> length p \<le> length s \<and> drop (length s - length p) s = p"

function str_replace :: "string \<Rightarrow> string \<Rightarrow> string \<Rightarrow> string" where
  \<comment> \<open>\<open>s.replace(old, new)\<close> for a non-empty \<open>old\<close>: leftmost occurrences, not overlapping\<close>
  "str_replace old new [] = []"
| "str_replace old new (c # cs) =
     (if old \<noteq> [] \<and> startswith (c # cs) old
      then new @ str_replace old new (drop (length old) (c # cs))
      else c # str_replace old new cs)"
  by pat_completeness auto
termination
  by (relation "measure (\<lambda>(old, new, s). length s)") (auto simp: neq_Nil_conv)

definition is_lower_or_digit :: "char \<Rightarrow> bool" where
  \<comment> \<open>the regular-expression class \<open>[a-z0-9]\<close>\<close>
  "is_lower_or_digit c \<longleftrightarrow>
     (97 \<le> (of_char c :: nat) \<and> (of_char c :: nat) \<le> 122) \<or>
     (48 \<le> (of_char c :: nat) \<and> (of_char c :: nat) \<le> 57)"

definition is_upper :: "char \<Rightarrow> bool" where
  \<comment> \<open>the regular-expression class \<open>[A-Z]\<close>\<close>
  "is_upper c \<longleftrightarrow> 65 \<le> (of_char c :: nat) \<and> (of_char c :: nat) \<le> 90"

definition name_char :: "char \<Rightarrow> bool" where
  \<comment> \<open>the regular-expression class \<open>[a-z0-9_]\<close>\<close>
  "name_char c \<longleftrightarrow> is_lower_or_digit c \<or> c = CHR ''_''"

definition lower_char :: "char \<Rightarrow> char" where
  \<comment> \<open>\<open>str.lower()\<close> on one code point below 256: A-Z, and the Latin-1 capitals
      U+00C0..U+00DE without the multiplication sign U+00D7\<close>
  "lower_char c =
     (let n = (of_char c :: nat)
      in if (65 \<le> n \<and> n \<le> 90) \<or> (192 \<le> n \<and> n \<le> 222 \<and> n \<noteq> 215)
         then char_of (n + 32) else c)"

section \<open>Path Namer: \<open>get_column_name\<close>\<close>

definition marker_at :: "string \<Rightarrow> bool" where
  \<comment> \<open>the pattern \<open>\[\].item\<close> matches at the start of \<open>s\<close>; the unescaped dot is any
      character but a newline\<close>
  "marker_at s \<longleftrightarrow>
     7 \<le> length s \<and> take 2 s = ''[]'' \<and> s ! 2 \<noteq> CHR 0x0A \<and> take 4 (drop 3 s) = ''item''"

fun sub_marker :: "string \<Rightarrow> string" where
  \<comment> \<open>\<open>re.sub(r'\[\].item', '', s)\<close>\<close>
  "sub_marker [] = []"
| "sub_marker (c # cs) =
     (if marker_at (c # cs) then sub_marker (drop 6 cs) else c # sub_marker cs)"

fun sub_camel :: "string \<Rightarrow> string" where
  \<comment> \<open>\<open>re.sub(r'([a-z0-9])([A-Z])', r'\1_\2', s)\<close>: a match consumes both characters\<close>
  "sub_camel (a # b # cs) =
     (if is_lower_or_digit a \<and> is_upper b then a # CHR ''_'' # b # sub_camel cs
      else a # sub_camel (b # cs))"
| "sub_camel cs = cs"

definition get_column_name :: "string \<Rightarrow> string" where
  "get_column_name field_path =
     (let clean_name = sub_marker field_path;
          snake_case = map lower_char (sub_camel clean_name);
          snake_case = map (\<lambda>c. if c = CHR ''.'' then CHR ''_'' else c) snake_case;
          snake_case = filter name_char snake_case
      in snake_case)"

section \<open>Schema Walker, Array Discovery and Table Partitioner\<close>

text \<open>
  The functions of \<open>ddl_enriched.py\<close> are modelled as pure functions. A Python exception is
  a value \<open>Inl e\<close> of the result; a list or dict that the source mutates in place is
  passed in and returned.
\<close>

datatype py_error = IndexError | KeyError | TypeError

text \<open>
  The parsed schema, as the classes of \<open>avro.schema\<close> that the source tells apart with
  \<open>isinstance\<close>: a record with its full name and fields, an array with its item type, a
  union with its branches, an enum with its symbols. \<open>PrimitiveSchema\<close> stands for every
  other class (which the source handles in its last \<open>else\<close>), with its \<open>type\<close> tag and
  its \<open>logical_type\<close>. A field has a name, a type and a \<open>doc\<close> that may be absent. A
  schema is a finite tree: a named type that refers to itself is outside the model.
\<close>

datatype schema =
    RecordSchema string "field list"
  | ArraySchema schema
  | UnionSchema "schema list"
  | EnumSchema "string list"
  | PrimitiveSchema string "string option"
and field = Field string schema "string option"

fun schema_type :: "schema \<Rightarrow> string" where
  "schema_type (RecordSchema n fs) = ''record''"
| "schema_type (ArraySchema items) = ''array''"
| "schema_type (UnionSchema schemas) = ''union''"
| "schema_type (EnumSchema symbols) = ''enum''"
| "schema_type (PrimitiveSchema t l) = t"

fun logical_type :: "schema \<Rightarrow> string option" where
  "logical_type (PrimitiveSchema t l) = l"
| "logical_type s = None"

text \<open>
  What \<open>extract_field_paths\<close> appends to \<open>paths\<close>: with \<open>include_types\<close> a 4-tuple
  \<open>(path, field_type, doc, optional)\<close> for an array that is not flattened, a 5-tuple with
  the enum symbols or the logical type for an enum or any other leaf; without it, a string.
\<close>

datatype extra = EnumValues "string list" | LogicalType "string option"

datatype path_info =
    Tuple4 string string "string option" bool
  | Tuple5 string string "string option" bool extra
  | Str string

definition non_null_types :: "schema list \<Rightarrow> schema list" where
  "non_null_types schemas = filter (\<lambda>t. schema_type t \<noteq> ''null'') schemas"

text \<open>
  Lines 139-149: the effective type of a field and its \<open>is_optional\<close> flag.
  \<open>sub_schema.schemas[0]\<close> raises \<open>IndexError\<close> on a union without branches.
\<close>

fun resolve_union :: "schema \<Rightarrow> py_error + schema \<times> bool" where
  "resolve_union (UnionSchema schemas) =
     (case non_null_types schemas of
        t # ts \<Rightarrow> Inr (t, True)
      | [] \<Rightarrow> (case schemas of [] \<Rightarrow> Inl IndexError | s # ss \<Rightarrow> Inr (s, False)))"
| "resolve_union sub_schema = Inr (sub_schema, False)"

definition join_name :: "string \<Rightarrow> string \<Rightarrow> string" where
  \<comment> \<open>\<open>full_name = f"{prefix}.{field.name}" if prefix else field.name\<close>\<close>
  "join_name prefix name = (if prefix \<noteq> [] then prefix @ ''.'' @ name else name)"

lemma size_member: "x \<in> set xs \<Longrightarrow> size x < Suc (size_list size xs)"
  by (induction xs) auto

lemma resolve_union_size [termination_simp]:
  "resolve_union t = Inr (s, b) \<Longrightarrow> size s \<le> size t"
proof (cases t)
  case (UnionSchema schemas)
  assume r: "resolve_union t = Inr (s, b)"
  show ?thesis
  proof (cases "non_null_types schemas")
    case Nil
    with r UnionSchema show ?thesis by (cases schemas) auto
  next
    case (Cons a as)
    then have "a \<in> set (non_null_types schemas)"
      by simp
    then have "a \<in> set schemas"
      by (simp add: non_null_types_def)
    with r UnionSchema Cons show ?thesis using size_member [of a schemas] by auto
  qed
qed auto

text \<open>
  Lines 119-180. \<open>extract_fields\<close> is the loop over \<open>schema_obj.fields\<close>. The dict
  \<open>named_types\<close> is written and never read, so it is left out.
\<close>

function extract_field_paths :: "schema \<Rightarrow> string \<Rightarrow> string list \<Rightarrow> bool \<Rightarrow> py_error + path_info list"
  and extract_fields :: "field list \<Rightarrow> string \<Rightarrow> string list \<Rightarrow> bool \<Rightarrow> py_error + path_info list"
where
  "extract_field_paths (RecordSchema n fields) prefix array_paths include_types =
     extract_fields fields prefix array_paths include_types"
| "extract_field_paths (ArraySchema items) prefix array_paths include_types = Inr []"
| "extract_field_paths (UnionSchema schemas) prefix array_paths include_types = Inr []"
| "extract_field_paths (EnumSchema symbols) prefix array_paths include_types = Inr []"
| "extract_field_paths (PrimitiveSchema t l) prefix array_paths include_types = Inr []"
| "extract_fields [] prefix array_paths include_types = Inr []"
| "extract_fields (Field name ftype field_doc # rest) prefix array_paths include_types =
     (let full_name = join_name prefix name in
      case resolve_union ftype of
        Inl e \<Rightarrow> Inl e
      | Inr (sub_schema, is_optional) \<Rightarrow>
          (case (case sub_schema of
                   RecordSchema n fs \<Rightarrow>
                     extract_field_paths sub_schema full_name array_paths include_types
                 | ArraySchema items \<Rightarrow>
                     (if full_name \<in> set array_paths
                      then extract_field_paths items (full_name @ ''[].item'') array_paths
                             include_types
                      else Inr [if include_types
                                then Tuple4 (full_name @ ''[]'') ''array'' field_doc is_optional
                                else Str (full_name @ ''[]'')])
                 | EnumSchema symbols \<Rightarrow>
                     Inr [if include_types
                          then Tuple5 full_name ''enum'' field_doc is_optional (EnumValues symbols)
                          else Str (full_name @ '' (enum)'')]
                 | _ \<Rightarrow>
                     Inr [if include_types
                          then Tuple5 full_name (schema_type sub_schema) field_doc is_optional
                                 (LogicalType (logical_type sub_schema))
                          else Str full_name]) of
             Inl e \<Rightarrow> Inl e
           | Inr paths \<Rightarrow>
               (case extract_fields rest prefix array_paths include_types of
                  Inl e \<Rightarrow> Inl e
                | Inr more \<Rightarrow> Inr (paths @ more))))"
  by pat_completeness auto
termination
  by (relation "measure (\<lambda>x. case x of Inl (s, p, a, i) \<Rightarrow> size s
                                      | Inr (fs, p, a, i) \<Rightarrow> size_list size fs)")
     (auto dest!: resolve_union_size)

text \<open>
  Lines 184-216. In \<open>find_array_fields\<close> a union is replaced by its first non-null branch
  and kept as it is when all its branches are null. \<open>array_fields\<close> is the accumulator
  that the source appends to and returns; \<open>find_array_in_fields\<close> is the loop over the
  fields.
\<close>

definition effective_type :: "schema \<Rightarrow> schema" where
  "effective_type sub_schema =
     (case sub_schema of
        UnionSchema schemas \<Rightarrow>
          (case non_null_types schemas of t # ts \<Rightarrow> t | [] \<Rightarrow> sub_schema)
      | _ \<Rightarrow> sub_schema)"

lemma effective_type_size [termination_simp]: "size (effective_type t) \<le> size t"
proof (cases t)
  case (UnionSchema schemas)
  show ?thesis
  proof (cases "non_null_types schemas")
    case Nil
    with UnionSchema show ?thesis by (simp add: effective_type_def)
  next
    case (Cons a as)
    then have "a \<in> set (non_null_types schemas)"
      by simp
    then have "a \<in> set schemas"
      by (simp add: non_null_types_def)
    with UnionSchema Cons show ?thesis
      using size_member [of a schemas] by (simp add: effective_type_def)
  qed
qed (auto simp: effective_type_def)

lemma effective_type_array: "ArraySchema x = effective_type t \<Longrightarrow> size x < size t"
  using effective_type_size [of t] by (cases "effective_type t") auto

lemma effective_type_less: "size (effective_type t) < Suc (Suc (size t + k))"
  using effective_type_size [of t] by simp

function find_array_fields :: "schema \<Rightarrow> string \<Rightarrow> string list \<Rightarrow> string list \<Rightarrow> string list"
  and find_array_in_fields :: "field list \<Rightarrow> string \<Rightarrow> string list \<Rightarrow> string list \<Rightarrow> string list"
where
  "find_array_fields (RecordSchema n fields) prefix array_fields parent_arrays =
     find_array_in_fields fields prefix array_fields parent_arrays"
| "find_array_fields (ArraySchema items) prefix array_fields parent_arrays = array_fields"
| "find_array_fields (UnionSchema schemas) prefix array_fields parent_arrays = array_fields"
| "find_array_fields (EnumSchema symbols) prefix array_fields parent_arrays = array_fields"
| "find_array_fields (PrimitiveSchema t l) prefix array_fields parent_arrays = array_fields"
| "find_array_in_fields [] prefix array_fields parent_arrays = array_fields"
| "find_array_in_fields (Field name ftype field_doc # rest) prefix array_fields parent_arrays =
     (let full_name = join_name prefix name;
          sub_schema = effective_type ftype;
          array_fields =
            (case sub_schema of
               RecordSchema n fs \<Rightarrow> find_array_fields sub_schema full_name array_fields parent_arrays
             | ArraySchema items \<Rightarrow>
                 (if full_name \<in> set parent_arrays
                  then find_array_fields items (full_name @ ''[].item'')
                         (array_fields @ [full_name]) parent_arrays
                  else array_fields @ [full_name])
             | _ \<Rightarrow> array_fields)
      in find_array_in_fields rest prefix array_fields parent_arrays)"
  by pat_completeness auto
termination
  by (relation "measure (\<lambda>x. case x of Inl (s, p, a, i) \<Rightarrow> size s
                                      | Inr (fs, p, a, i) \<Rightarrow> size_list size fs)")
     (auto dest!: effective_type_array simp: effective_type_less)

text \<open>
  Lines 280-325, \<open>build_table_hierarchy\<close>, with the \<open>selected_arrays\<close> of the enclosing
  scope as a parameter. \<open>as_tuple\<close> is the guard
  \<open>isinstance(path_info, tuple) and len(path_info) >= 4\<close> together with
  \<open>path_info[:4]\<close>. A dict is an association list in insertion order.
  \<open>assign_first\<close> is the inner loop of the first loop, with its \<open>break\<close>;
  \<open>partition_paths\<close> is the first loop; \<open>seed_arrays\<close>, \<open>nested_arrays\<close> and
  \<open>nested_fields\<close> are the three nested loops of the second part.
\<close>

fun as_tuple :: "path_info \<Rightarrow> (string \<times> string \<times> string option \<times> bool) option" where
  "as_tuple (Tuple4 path field_type doc optional) = Some (path, field_type, doc, optional)"
| "as_tuple (Tuple5 path field_type doc optional x) = Some (path, field_type, doc, optional)"
| "as_tuple (Str s) = None"

type_synonym tables = "(string \<times> path_info list) list"

fun dict_setdefault :: "string \<Rightarrow> (string \<times> 'a list) list \<Rightarrow> (string \<times> 'a list) list" where
  "dict_setdefault k [] = [(k, [])]"
| "dict_setdefault k ((k', vs) # d) =
     (if k = k' then (k', vs) # d else (k', vs) # dict_setdefault k d)"

fun dict_append :: "string \<Rightarrow> 'a \<Rightarrow> (string \<times> 'a list) list \<Rightarrow> (string \<times> 'a list) list" where
  "dict_append k v [] = [(k, [v])]"
| "dict_append k v ((k', vs) # d) =
     (if k = k' then (k', vs @ [v]) # d else (k', vs) # dict_append k v d)"

fun assign_first :: "string list \<Rightarrow> path_info \<Rightarrow> string \<Rightarrow> tables \<Rightarrow> tables \<times> bool" where
  "assign_first [] path_info path array_tables = (array_tables, False)"
| "assign_first (array_path # rest) path_info path array_tables =
     (if startswith path (array_path @ ''[].item'')
      then (dict_append array_path path_info array_tables, True)
      else assign_first rest path_info path array_tables)"

fun partition_paths :: "path_info list \<Rightarrow> string list \<Rightarrow> path_info list \<times> tables \<Rightarrow> path_info list \<times> tables" where
  "partition_paths [] selected_arrays (root_fields, array_tables) = (root_fields, array_tables)"
| "partition_paths (path_info # rest) selected_arrays (root_fields, array_tables) =
     (case as_tuple path_info of
        None \<Rightarrow> partition_paths rest selected_arrays (root_fields, array_tables)
      | Some (path, field_type, doc, optional) \<Rightarrow>
          (case assign_first selected_arrays path_info path array_tables of
             (array_tables', belongs_to_array) \<Rightarrow>
               partition_paths rest selected_arrays
                 (if belongs_to_array then root_fields else root_fields @ [path_info],
                  array_tables')))"

fun nested_fields :: "path_info list \<Rightarrow> string \<Rightarrow> tables \<Rightarrow> tables" where
  "nested_fields [] nested_array array_tables = array_tables"
| "nested_fields (path_info # rest) nested_array array_tables =
     (case as_tuple path_info of
        None \<Rightarrow> nested_fields rest nested_array array_tables
      | Some (path, field_type, doc, optional) \<Rightarrow>
          nested_fields rest nested_array
            (if startswith path (nested_array @ ''[].item'')
             then dict_append nested_array path_info array_tables
             else array_tables))"

fun nested_arrays :: "string list \<Rightarrow> string \<Rightarrow> path_info list \<Rightarrow> tables \<Rightarrow> tables" where
  "nested_arrays [] array_path paths array_tables = array_tables"
| "nested_arrays (nested_array # rest) array_path paths array_tables =
     nested_arrays rest array_path paths
       (if startswith nested_array (array_path @ ''[].item'') \<and> nested_array \<noteq> array_path
        then nested_fields paths nested_array array_tables
        else array_tables)"

fun seed_arrays :: "string list \<Rightarrow> string list \<Rightarrow> path_info list \<Rightarrow> tables \<Rightarrow> tables" where
  "seed_arrays [] selected_arrays paths array_tables = array_tables"
| "seed_arrays (array_path # rest) selected_arrays paths array_tables =
     seed_arrays rest selected_arrays paths
       (nested_arrays selected_arrays array_path paths (dict_setdefault array_path array_tables))"

record table_structure =
  root_table :: "path_info list"
  array_tables :: tables

definition build_table_hierarchy :: "path_info list \<Rightarrow> string list \<Rightarrow> table_structure" where
  "build_table_hierarchy paths selected_arrays =
     (case partition_paths paths selected_arrays ([], []) of
        (root_fields, tables) \<Rightarrow>
          \<lparr>root_table = root_fields,
           array_tables = seed_arrays selected_arrays selected_arrays paths tables\<rparr>)"



section \<open>Example schemas\<close>

definition order_schema :: schema where
  \<comment> \<open>an order with an array of line items\<close>
  "order_schema = RecordSchema ''Order''
     [Field ''order_id'' (PrimitiveSchema ''string'' None) None,
      Field ''items'' (ArraySchema (RecordSchema ''Item''
         [Field ''sku'' (PrimitiveSchema ''string'' None) None,
          Field ''qty'' (PrimitiveSchema ''int'' None) None])) None]"

definition nested_schema :: schema where
  \<comment> \<open>an array \<open>a\<close> whose items hold an array \<open>b\<close>\<close>
  "nested_schema = RecordSchema ''R''
     [Field ''id'' (PrimitiveSchema ''string'' None) None,
      Field ''a'' (ArraySchema (RecordSchema ''A''
         [Field ''k'' (PrimitiveSchema ''int'' None) None,
          Field ''b'' (ArraySchema (RecordSchema ''B''
             [Field ''x'' (PrimitiveSchema ''string'' None) None])) None])) None]"

definition deep_schema :: schema where
  \<comment> \<open>three arrays, each inside the items of the one before\<close>
  "deep_schema = RecordSchema ''R''
     [Field ''a'' (ArraySchema (RecordSchema ''A''
         [Field ''b'' (ArraySchema (RecordSchema ''B''
             [Field ''c'' (ArraySchema (RecordSchema ''C''
                [Field ''x'' (PrimitiveSchema ''string'' None) None])) None])) None])) None]"

section \<open>DDL generation\<close>

text \<open>
  Lines 478-695, the handler of the button "Generate DDL". The selections that the user
  interface holds when the button is pressed are the record \<open>selection\<close>. The source
  builds each DDL as a string, one column line per \<open>+=\<close>; the model keeps the columns as
  records and \<open>ddl_text\<close> renders them to that string. A column also records which
  statement appended it (\<open>col_role\<close>) and for which field path (\<open>col_leaf\<close>); neither
  shows in the text. The four branches that emit the foreign-key column differ only in the
  parent they bind to, which is \<open>fk_binding\<close>; the emission they share is \<open>fk_column\<close>.
  The variable \<open>fields\<close> of the source is written \<open>flds\<close>.
\<close>

definition AVRO_TO_HIVE_TYPE :: "(string \<times> string) list" where
  "AVRO_TO_HIVE_TYPE =
     [(''string'', ''VARCHAR(255)''), (''int'', ''INT''), (''long'', ''BIGINT''),
      (''float'', ''FLOAT''), (''double'', ''DOUBLE''), (''boolean'', ''BOOLEAN''),
      (''bytes'', ''BINARY''), (''null'', ''NULL''), (''timestamp-millis'', ''TIMESTAMP''),
      (''date'', ''DATE''), (''time-millis'', ''VARCHAR(30)''), (''enum'', ''VARCHAR(100)'')]"

definition dict_get :: "(string \<times> 'a) list \<Rightarrow> string \<Rightarrow> 'a \<Rightarrow> 'a" where
  \<comment> \<open>\<open>d.get(k, default)\<close>\<close>
  "dict_get d k dflt = (case map_of d k of Some v \<Rightarrow> v | None \<Rightarrow> dflt)"

definition dict_index :: "(string \<times> 'a) list \<Rightarrow> string \<Rightarrow> py_error + 'a" where
  \<comment> \<open>\<open>d[k]\<close>\<close>
  "dict_index d k = (case map_of d k of Some v \<Rightarrow> Inr v | None \<Rightarrow> Inl KeyError)"

definition enum_override :: "string \<Rightarrow> string \<Rightarrow> py_error + string" where
  \<comment> \<open>\<open>if field_type == 'enum': hive_type = AVRO_TO_HIVE_TYPE['enum']\<close>\<close>
  "enum_override field_type hive_type =
     (if field_type = ''enum'' then dict_index AVRO_TO_HIVE_TYPE ''enum'' else Inr hive_type)"

fun avro_to_hive_type :: "path_info \<Rightarrow> py_error + string" where
  \<comment> \<open>\<open>_, field_type, _, optional, *rest = field_info + (None,)\<close>; \<open>rest[0]\<close> is the fifth
      component of a 5-tuple and \<open>None\<close> for a 4-tuple; a string cannot be added to a tuple\<close>
  "avro_to_hive_type (Tuple4 path field_type doc optional) =
     enum_override field_type (dict_get AVRO_TO_HIVE_TYPE field_type ''STRING'')"
| "avro_to_hive_type (Tuple5 path field_type doc optional (EnumValues symbols)) =
     enum_override field_type (dict_get AVRO_TO_HIVE_TYPE ''enum'' ''STRING'')"
| "avro_to_hive_type (Tuple5 path field_type doc optional (LogicalType lt)) =
     enum_override field_type
       (case lt of
          Some l \<Rightarrow> if l \<noteq> [] then dict_get AVRO_TO_HIVE_TYPE l ''STRING''
                    else dict_get AVRO_TO_HIVE_TYPE field_type ''STRING''
        | None \<Rightarrow> dict_get AVRO_TO_HIVE_TYPE field_type ''STRING'')"
| "avro_to_hive_type (Str s) = Inl TypeError"

datatype role = Common | ForeignKey | NaturalKey | Data

record column =
  col_role :: role
  col_leaf :: "string option"
  col_name :: string
  col_type :: string
  col_comment :: "string option"

definition render_column :: "column \<Rightarrow> string" where
  "render_column c =
     ''  '' @ col_name c @ '' '' @ col_type c @
     (case col_comment c of
        None \<Rightarrow> []
      | Some text \<Rightarrow> '' COMMENT '' @ [CHR 0x27] @ text @ [CHR 0x27]) @
     [CHR '','', CHR 0x0A]"

record table =
  table_name :: string
  columns :: "column list"

definition ddl_text :: "table \<Rightarrow> string" where
  "ddl_text t =
     (let ddl = ''CREATE TABLE '' @ table_name t @ '' ('' @ [CHR 0x0A] @
                concat (map render_column (columns t));
          ddl = (if endswith ddl [CHR '','', CHR 0x0A] then take (length ddl - 2) ddl else ddl)
      in ddl @ [CHR 0x0A] @ '')'')"

definition doc_comment :: "string \<Rightarrow> string option \<Rightarrow> string option" where
  \<comment> \<open>\<open>if doc: ... COMMENT '<label>{doc}'\<close>\<close>
  "doc_comment label doc =
     (case doc of None \<Rightarrow> None | Some d \<Rightarrow> if d \<noteq> [] then Some (label @ d) else None)"

definition data_column :: "string \<Rightarrow> path_info \<Rightarrow> string \<Rightarrow> string \<Rightarrow> string option \<Rightarrow> py_error + column" where
  "data_column column_name field_info path field_type doc =
     (if field_type = ''array''
      then Inr \<lparr>col_role = Data, col_leaf = Some path, col_name = column_name @ ''_json'',
                col_type = ''STRING'', col_comment = doc_comment ''JSON array: '' doc\<rparr>
      else if field_type = ''record''
      then Inr \<lparr>col_role = Data, col_leaf = Some path, col_name = column_name @ ''_json'',
                col_type = ''STRING'', col_comment = doc_comment ''JSON object: '' doc\<rparr>
      else (case avro_to_hive_type field_info of
              Inl e \<Rightarrow> Inl e
            | Inr hive_type \<Rightarrow>
                Inr \<lparr>col_role = Data, col_leaf = Some path, col_name = column_name,
                     col_type = hive_type, col_comment = doc_comment [] doc\<rparr>))"

definition common_columns :: "(string \<times> string) list \<Rightarrow> column list" where
  "common_columns common_fields_list =
     map (\<lambda>(name, type_info). \<lparr>col_role = Common, col_leaf = None, col_name = name,
                                col_type = type_info, col_comment = None\<rparr>) common_fields_list"

record relation =
  parent :: string
  choice :: string

record selection =
  selected_arrays :: "string list"
  root_table_name :: string
  common_fields_list :: "(string \<times> string) list"
  natural_key :: "string option"
  array_natural_keys :: "string \<rightharpoonup> string"
  parent_child_relations :: "string \<rightharpoonup> relation"

text \<open>Lines 510-543: the columns of the root table and \<open>natural_key_col_name\<close>.\<close>

fun root_columns :: "path_info list \<Rightarrow> string option \<Rightarrow> string \<Rightarrow> column list \<Rightarrow> py_error + string \<times> column list" where
  "root_columns [] key natural_key_col_name cols = Inr (natural_key_col_name, cols)"
| "root_columns (field_info # rest) key natural_key_col_name cols =
     (case as_tuple field_info of
        None \<Rightarrow> root_columns rest key natural_key_col_name cols
      | Some (path, field_type, doc, optional) \<Rightarrow>
          (let column_name = get_column_name path;
               natural_key_col_name =
                 (if Some path = key then column_name else natural_key_col_name)
           in case data_column column_name field_info path field_type doc of
                Inl e \<Rightarrow> Inl e
              | Inr c \<Rightarrow> root_columns rest key natural_key_col_name (cols @ [c])))"

text \<open>Lines 570-579: the most immediate selected parent array, if any.\<close>

fun find_parent :: "string list \<Rightarrow> string \<Rightarrow> bool \<times> string option \<Rightarrow> bool \<times> string option" where
  "find_parent [] array_path (is_nested_array, parent_array) = (is_nested_array, parent_array)"
| "find_parent (potential_parent # rest) array_path (is_nested_array, parent_array) =
     find_parent rest array_path
       (if array_path \<noteq> potential_parent
           \<and> startswith array_path (potential_parent @ ''[].item'')
        then (case parent_array of
                None \<Rightarrow> (True, Some potential_parent)
              | Some p \<Rightarrow>
                  if p = [] \<or> length p < length potential_parent
                  then (True, Some potential_parent)
                  else (is_nested_array, parent_array))
        else (is_nested_array, parent_array))"

definition nested_parent :: "selection \<Rightarrow> string \<Rightarrow> string option" where
  \<comment> \<open>the parent for which
      \<open>is_nested_array and parent_array and parent_array in array_natural_keys\<close> holds\<close>
  "nested_parent sel array_path =
     (case find_parent (selected_arrays sel) array_path (False, None) of
        (is_nested_array, parent_array) \<Rightarrow>
          (case parent_array of
             None \<Rightarrow> None
           | Some p \<Rightarrow>
               if is_nested_array \<and> p \<noteq> [] \<and> array_natural_keys sel p \<noteq> None
               then Some p else None))"

definition find_field :: "path_info list \<Rightarrow> string option \<Rightarrow> path_info option" where
  \<comment> \<open>\<open>next((f for f in fields if isinstance(f, tuple) and len(f) >= 4 and f[0] == key),
      None)\<close>\<close>
  "find_field flds key =
     find (\<lambda>f. case as_tuple f of
                  None \<Rightarrow> False
                | Some (path, field_type, doc, optional) \<Rightarrow> Some path = key) flds"

record binding =
  parent_key_column :: string
  parent_key_path :: "string option"
  parent_table :: string
  parent_fields :: "path_info list"

definition array_binding :: "selection \<Rightarrow> tables \<Rightarrow> string \<Rightarrow> py_error + binding" where
  \<comment> \<open>a foreign key to the table of the array \<open>parent_array\<close>\<close>
  "array_binding sel tables parent_array =
     (case array_natural_keys sel parent_array of
        None \<Rightarrow> Inl KeyError
      | Some key_path \<Rightarrow>
          (case dict_index tables parent_array of
             Inl e \<Rightarrow> Inl e
           | Inr flds \<Rightarrow>
               Inr \<lparr>parent_key_column =
                      get_column_name (str_replace (parent_array @ ''.'') [] key_path),
                    parent_key_path = Some key_path,
                    parent_table = root_table_name sel @ ''_'' @ get_column_name parent_array,
                    parent_fields = flds\<rparr>))"

definition root_binding :: "selection \<Rightarrow> path_info list \<Rightarrow> string \<Rightarrow> binding" where
  \<comment> \<open>a foreign key to the root table\<close>
  "root_binding sel root_fields natural_key_col_name =
     \<lparr>parent_key_column = natural_key_col_name,
      parent_key_path = natural_key sel,
      parent_table = root_table_name sel,
      parent_fields = root_fields\<rparr>"

text \<open>
  Lines 581-644. The nested binding is tried first; the explicit relationship is read only
  when it does not apply.
\<close>

definition fk_binding :: "selection \<Rightarrow> tables \<Rightarrow> path_info list \<Rightarrow> string \<Rightarrow> string \<Rightarrow> py_error + binding" where
  "fk_binding sel tables root_fields natural_key_col_name array_path =
     (case nested_parent sel array_path of
        Some parent_array \<Rightarrow> array_binding sel tables parent_array
      | None \<Rightarrow>
          (case parent_child_relations sel array_path of
             Some relation \<Rightarrow>
               if choice relation = ''Parent array's key''
                  \<and> array_natural_keys sel (parent relation) \<noteq> None
               then array_binding sel tables (parent relation)
               else Inr (root_binding sel root_fields natural_key_col_name)
           | None \<Rightarrow> Inr (root_binding sel root_fields natural_key_col_name)))"

definition fk_column :: "binding \<Rightarrow> py_error + column" where
  "fk_column b =
     (case find_field (parent_fields b) (parent_key_path b) of
        Some parent_field_info \<Rightarrow>
          (case avro_to_hive_type parent_field_info of
             Inl e \<Rightarrow> Inl e
           | Inr hive_type \<Rightarrow>
               Inr \<lparr>col_role = ForeignKey, col_leaf = parent_key_path b,
                    col_name = parent_key_column b, col_type = hive_type,
                    col_comment = Some (''Foreign key to '' @ parent_table b)\<rparr>)
      | None \<Rightarrow>
          Inr \<lparr>col_role = ForeignKey, col_leaf = parent_key_path b,
               col_name = parent_key_column b, col_type = ''VARCHAR(255)'',
               col_comment = Some (''Foreign key to '' @ parent_table b)\<rparr>)"

text \<open>Lines 646-652: the natural-key column of an array table.\<close>

definition key_columns :: "selection \<Rightarrow> string \<Rightarrow> path_info list \<Rightarrow> py_error + column list" where
  "key_columns sel array_path flds =
     (case array_natural_keys sel array_path of
        None \<Rightarrow> Inr []
      | Some array_key_path \<Rightarrow>
          (case find_field flds (Some array_key_path) of
             None \<Rightarrow> Inr []
           | Some array_key_info \<Rightarrow>
               (case avro_to_hive_type array_key_info of
                  Inl e \<Rightarrow> Inl e
                | Inr hive_type \<Rightarrow>
                    Inr [\<lparr>col_role = NaturalKey, col_leaf = Some array_key_path,
                          col_name = get_column_name
                                       (str_replace (array_path @ ''.'') [] array_key_path),
                          col_type = hive_type,
                          col_comment = Some ''Natural key for this array''\<rparr>])))"

text \<open>Lines 654-687: the columns of the array's own fields, without the key.\<close>

fun array_columns :: "selection \<Rightarrow> string \<Rightarrow> path_info list \<Rightarrow> py_error + column list" where
  "array_columns sel array_path [] = Inr []"
| "array_columns sel array_path (field_info # rest) =
     (case as_tuple field_info of
        None \<Rightarrow> array_columns sel array_path rest
      | Some (path, field_type, doc, optional) \<Rightarrow>
          if array_natural_keys sel array_path = Some path
          then array_columns sel array_path rest
          else (let field_path = str_replace (array_path @ ''.'') [] path;
                    column_name = get_column_name field_path
                in case data_column column_name field_info path field_type doc of
                     Inl e \<Rightarrow> Inl e
                   | Inr c \<Rightarrow>
                       (case array_columns sel array_path rest of
                          Inl e \<Rightarrow> Inl e
                        | Inr cs \<Rightarrow> Inr (c # cs))))"

definition array_table :: "selection \<Rightarrow> tables \<Rightarrow> path_info list \<Rightarrow> string \<Rightarrow> string \<Rightarrow> path_info list \<Rightarrow> py_error + table" where
  "array_table sel tables root_fields natural_key_col_name array_path flds =
     (case fk_binding sel tables root_fields natural_key_col_name array_path of
        Inl e \<Rightarrow> Inl e
      | Inr b \<Rightarrow>
          (case fk_column b of
             Inl e \<Rightarrow> Inl e
           | Inr fk \<Rightarrow>
               (case key_columns sel array_path flds of
                  Inl e \<Rightarrow> Inl e
                | Inr ks \<Rightarrow>
                    (case array_columns sel array_path flds of
                       Inl e \<Rightarrow> Inl e
                     | Inr ds \<Rightarrow>
                         Inr \<lparr>table_name =
                                root_table_name sel @ ''_'' @ get_column_name array_path,
                              columns =
                                common_columns (common_fields_list sel) @ [fk] @ ks @ ds\<rparr>))))"

fun dict_set :: "string \<Rightarrow> 'a \<Rightarrow> (string \<times> 'a) list \<Rightarrow> (string \<times> 'a) list" where
  \<comment> \<open>\<open>d[k] = v\<close>: a new key goes to the end, a known key keeps its place\<close>
  "dict_set k v [] = [(k, v)]"
| "dict_set k v ((k', v') # d) = (if k = k' then (k', v) # d else (k', v') # dict_set k v d)"

fun array_ddls :: "selection \<Rightarrow> tables \<Rightarrow> path_info list \<Rightarrow> string \<Rightarrow> tables \<Rightarrow> (string \<times> table) list \<Rightarrow> py_error + (string \<times> table) list" where
  "array_ddls sel tables root_fields natural_key_col_name [] ddls = Inr ddls"
| "array_ddls sel tables root_fields natural_key_col_name ((array_path, flds) # rest) ddls =
     (case array_table sel tables root_fields natural_key_col_name array_path flds of
        Inl e \<Rightarrow> Inl e
      | Inr t \<Rightarrow>
          array_ddls sel tables root_fields natural_key_col_name rest
            (dict_set (table_name t) t ddls))"

definition generate_ddl :: "selection \<Rightarrow> path_info list \<Rightarrow> py_error + table \<times> (string \<times> table) list" where
  "generate_ddl sel flat_paths =
     (let table_structure = build_table_hierarchy flat_paths (selected_arrays sel);
          root_fields = root_table table_structure;
          tables = array_tables table_structure
      in case root_columns root_fields (natural_key sel) [] [] of
           Inl e \<Rightarrow> Inl e
         | Inr (natural_key_col_name, cols) \<Rightarrow>
             (case array_ddls sel tables root_fields natural_key_col_name tables [] of
                Inl e \<Rightarrow> Inl e
              | Inr ddls \<Rightarrow>
                  Inr (\<lparr>table_name = root_table_name sel,
                        columns = common_columns (common_fields_list sel) @ cols\<rparr>, ddls)))"

section \<open>Example selections\<close>



definition stale_selection :: selection where
  \<comment> \<open>the root key names a field that the schema does not have\<close>
  "stale_selection =
     \<lparr>selected_arrays = [''a''],
      root_table_name = ''r'',
      common_fields_list = [(''run_id'', ''STRING'')],
      natural_key = Some ''order_id'',
      array_natural_keys = [''a'' \<mapsto> ''a[].item.k''],
      parent_child_relations = Map.empty\<rparr>"

definition stale_leaves :: "path_info list" where
  \<comment> \<open>the leaves of \<open>nested_schema\<close> when only the array \<open>a\<close> is selected\<close>
  "stale_leaves =
     [Tuple5 ''id'' ''string'' None False (LogicalType None),
      Tuple5 ''a[].item.k'' ''int'' None False (LogicalType None),
      Tuple4 ''a[].item.b[]'' ''array'' None False]"


section \<open>Names that the schema parser accepts\<close>





section \<open>Properties of the Path Namer\<close>

lemma of_char_underscore: "of_char CHR ''_'' = (95::nat)"
  by simp

lemma name_char_not_bracket: "name_char c \<Longrightarrow> c \<noteq> CHR ''[''"
  by (auto simp: name_char_def is_lower_or_digit_def)

lemma name_char_not_dot: "name_char c \<Longrightarrow> c \<noteq> CHR ''.''"
  by (auto simp: name_char_def is_lower_or_digit_def)

lemma name_char_not_upper: "name_char c \<Longrightarrow> \<not> is_upper c"
  by (auto simp: name_char_def is_lower_or_digit_def is_upper_def of_char_underscore)

lemma name_char_lower: "name_char c \<Longrightarrow> lower_char c = c"
  by (auto simp: name_char_def is_lower_or_digit_def lower_char_def Let_def of_char_underscore)

lemma marker_at_hd: "marker_at (c # cs) \<Longrightarrow> c = CHR ''[''"
  by (cases cs) (auto simp: marker_at_def)

lemma sub_marker_id: "CHR ''['' \<notin> set s \<Longrightarrow> sub_marker s = s"
  by (induction s) (auto dest: marker_at_hd)

lemma sub_camel_id: "\<forall>c \<in> set s. \<not> is_upper c \<Longrightarrow> sub_camel s = s"
  by (induction s rule: sub_camel.induct) auto

lemma get_column_name_chars: "c \<in> set (get_column_name x) \<Longrightarrow> name_char c"
  by (simp add: get_column_name_def)

lemma get_column_name_fixed:
  assumes "\<forall>c \<in> set y. name_char c"
  shows "get_column_name y = y"
proof -
  have m: "sub_marker y = y"
    using assms by (intro sub_marker_id) (auto dest: name_char_not_bracket)
  have c: "sub_camel y = y"
    using assms by (intro sub_camel_id) (auto dest: name_char_not_upper)
  have l: "map lower_char y = y"
    using assms by (intro map_idI) (auto dest: name_char_lower)
  have d: "map (\<lambda>c. if c = CHR ''.'' then CHR ''_'' else c) y = y"
    using assms by (intro map_idI) (auto dest: name_char_not_dot)
  have f: "filter name_char y = y"
    using assms by (simp add: filter_id_conv)
  show ?thesis
    by (simp add: get_column_name_def m c l d f del: map_map)
qed

text \<open>
  Claim C9. The Path Namer is idempotent: naming the name of any string gives the same
  name again.
\<close>

theorem get_column_name_idempotent:
  "get_column_name (get_column_name x) = get_column_name x"
  by (rule get_column_name_fixed) (auto dest: get_column_name_chars)

section \<open>Properties of Array Discovery\<close>

lemma find_array_fields_grows:
  "set acc \<subseteq> set (find_array_fields s p acc P)"
  "set acc \<subseteq> set (find_array_in_fields fs p acc P)"
proof (induction s p acc P and fs p acc P rule: find_array_fields_find_array_in_fields.induct)
  case (7 name ftype field_doc rest prefix array_fields parent_arrays)
  let ?full = "join_name prefix name"
  let ?sub = "effective_type ftype"
  let ?next = "case ?sub of
      RecordSchema n fs \<Rightarrow> find_array_fields ?sub ?full array_fields parent_arrays
    | ArraySchema items \<Rightarrow>
        if ?full \<in> set parent_arrays
        then find_array_fields items (?full @ ''[].item'') (array_fields @ [?full]) parent_arrays
        else array_fields @ [?full]
    | _ \<Rightarrow> array_fields"
  have step: "set array_fields \<subseteq> set ?next"
  proof (cases ?sub)
    case (RecordSchema n fs)
    then show ?thesis using "7.IH"(1) [OF refl refl RecordSchema] by simp
  next
    case (ArraySchema items)
    show ?thesis
    proof (cases "?full \<in> set parent_arrays")
      case True
      have "set (array_fields @ [?full]) \<subseteq> set (find_array_fields items (?full @ ''[].item'')
              (array_fields @ [?full]) parent_arrays)"
        by (rule "7.IH"(2) [OF refl refl ArraySchema True])
      then show ?thesis using ArraySchema True by auto
    next
      case False
      then show ?thesis using ArraySchema by auto
    qed
  qed simp_all
  have "set ?next \<subseteq> set (find_array_in_fields rest prefix ?next parent_arrays)"
    by (rule "7.IH"(3) [OF refl refl refl])
  with step show ?case
    by (simp add: Let_def)
qed simp_all

lemma find_array_fields_mono_aux:
  "set P1 \<subseteq> set P2 \<Longrightarrow> set acc \<subseteq> set acc2 \<Longrightarrow>
     set (find_array_fields s p acc P1) \<subseteq> set (find_array_fields s p acc2 P2)"
  "set P1 \<subseteq> set P2 \<Longrightarrow> set acc \<subseteq> set acc2 \<Longrightarrow>
     set (find_array_in_fields fs p acc P1) \<subseteq> set (find_array_in_fields fs p acc2 P2)"
proof (induction s p acc P1 and fs p acc P1 arbitrary: acc2 and acc2
       rule: find_array_fields_find_array_in_fields.induct)
  case (7 name ftype field_doc rest prefix array_fields parent_arrays)
  let ?full = "join_name prefix name"
  let ?sub = "effective_type ftype"
  let ?next1 = "case ?sub of
      RecordSchema n fs \<Rightarrow> find_array_fields ?sub ?full array_fields parent_arrays
    | ArraySchema items \<Rightarrow>
        if ?full \<in> set parent_arrays
        then find_array_fields items (?full @ ''[].item'') (array_fields @ [?full]) parent_arrays
        else array_fields @ [?full]
    | _ \<Rightarrow> array_fields"
  let ?next2 = "case ?sub of
      RecordSchema n fs \<Rightarrow> find_array_fields ?sub ?full acc2 P2
    | ArraySchema items \<Rightarrow>
        if ?full \<in> set P2
        then find_array_fields items (?full @ ''[].item'') (acc2 @ [?full]) P2
        else acc2 @ [?full]
    | _ \<Rightarrow> acc2"
  note pol = "7.prems"(1) and acc = "7.prems"(2)
  have app: "set (array_fields @ [?full]) \<subseteq> set (acc2 @ [?full])"
    using acc by auto
  have step: "set ?next1 \<subseteq> set ?next2"
  proof (cases ?sub)
    case (RecordSchema n fs)
    then show ?thesis using "7.IH"(1) [OF refl refl RecordSchema pol acc] by simp
  next
    case (ArraySchema items)
    show ?thesis
    proof (cases "?full \<in> set parent_arrays")
      case True
      then have "?full \<in> set P2" using pol by auto
      then show ?thesis
        using ArraySchema True "7.IH"(2) [OF refl refl ArraySchema True pol app] by simp
    next
      case False
      show ?thesis
      proof (cases "?full \<in> set P2")
        case True
        have "set (acc2 @ [?full])
              \<subseteq> set (find_array_fields items (?full @ ''[].item'') (acc2 @ [?full]) P2)"
          by (rule find_array_fields_grows(1))
        with app have "set (array_fields @ [?full])
              \<subseteq> set (find_array_fields items (?full @ ''[].item'') (acc2 @ [?full]) P2)"
          by (rule subset_trans)
        then show ?thesis using ArraySchema False True by simp
      next
        case F2: False
        then show ?thesis using ArraySchema False app by simp
      qed
    qed
  qed (use acc in simp_all)
  have "set (find_array_in_fields rest prefix ?next1 parent_arrays)
        \<subseteq> set (find_array_in_fields rest prefix ?next2 P2)"
    by (rule "7.IH"(3) [OF refl refl refl pol step])
  then show ?case
    by (simp add: Let_def)
qed simp_all

text \<open>
  Claim C6. Array discovery is monotone in the unnest policy: a path reported under a policy
  is reported under every larger policy.
\<close>

theorem find_array_fields_monotone:
  assumes "set policy1 \<subseteq> set policy2"
  shows "set (find_array_fields schema [] [] policy1)
         \<subseteq> set (find_array_fields schema [] [] policy2)"
  using assms by (rule find_array_fields_mono_aux(1)) simp

theorem find_array_fields_monotone_witness:
  "set ([] :: string list) \<subseteq> set [''a''] \<and>
   find_array_fields nested_schema [] [] [] = [''a''] \<and>
   find_array_fields nested_schema [] [] [''a''] = [''a'', ''a[].item.b''] \<and>
   set (find_array_fields nested_schema [] [] [])
     \<subseteq> set (find_array_fields nested_schema [] [] [''a''])"
proof -
  have h: "set ([] :: string list) \<subseteq> set [''a'']"
    by simp
  have v1: "find_array_fields nested_schema [] [] [] = [''a'']"
    by code_simp
  have v2: "find_array_fields nested_schema [] [] [''a''] = [''a'', ''a[].item.b'']"
    by code_simp
  show ?thesis
    using h v1 v2 find_array_fields_monotone [OF h, of nested_schema] by simp
qed

section \<open>Properties of the Schema Walker\<close>





text \<open>A union without any branch has no first branch: \<open>sub_schema.schemas[0]\<close> raises.\<close>

lemma empty_union_raises:
  "extract_field_paths (RecordSchema ''R'' [Field ''f'' (UnionSchema []) None]) [] [] True
     = Inl IndexError"
  by (simp add: non_null_types_def)

section \<open>Behaviour of the Table Partitioner on nested arrays\<close>

text \<open>
  Claim C1 says that each leaf goes to the group of its longest selected array ancestor.
  With the arrays \<open>a\<close> and \<open>a[].item.b\<close> selected in this order, the first loop of
  \<open>build_table_hierarchy\<close> stops at the first ancestor in the list, so the leaf
  \<open>a[].item.b[].item.x\<close> is put into the group of \<open>a\<close>; the second loop then adds it to the
  group of \<open>a[].item.b\<close> as well.
\<close>

theorem nested_leaf_in_outer_group:
  "extract_field_paths nested_schema [] [''a'', ''a[].item.b''] True
     = Inr [Tuple5 ''id'' ''string'' None False (LogicalType None),
            Tuple5 ''a[].item.k'' ''int'' None False (LogicalType None),
            Tuple5 ''a[].item.b[].item.x'' ''string'' None False (LogicalType None)] \<and>
   build_table_hierarchy
     [Tuple5 ''id'' ''string'' None False (LogicalType None),
      Tuple5 ''a[].item.k'' ''int'' None False (LogicalType None),
      Tuple5 ''a[].item.b[].item.x'' ''string'' None False (LogicalType None)]
     [''a'', ''a[].item.b'']
     = \<lparr>root_table = [Tuple5 ''id'' ''string'' None False (LogicalType None)],
        array_tables =
          [(''a'', [Tuple5 ''a[].item.k'' ''int'' None False (LogicalType None),
                    Tuple5 ''a[].item.b[].item.x'' ''string'' None False (LogicalType None)]),
           (''a[].item.b'',
                   [Tuple5 ''a[].item.b[].item.x'' ''string'' None False (LogicalType None)])]\<rparr>"
  by code_simp

text \<open>
  Claim C2 says that each leaf is in exactly one group, once. With three arrays nested in
  each other and all selected, the only leaf is in all three groups, and twice in the
  innermost: the second loop of \<open>build_table_hierarchy\<close> appends the leaves of a nested array
  once for every selected array that encloses it.
\<close>

theorem deep_leaf_duplicated:
  "extract_field_paths deep_schema [] [''a'', ''a[].item.b'', ''a[].item.b[].item.c''] True
     = Inr [Tuple5 ''a[].item.b[].item.c[].item.x'' ''string'' None False (LogicalType None)] \<and>
   build_table_hierarchy
     [Tuple5 ''a[].item.b[].item.c[].item.x'' ''string'' None False (LogicalType None)]
     [''a'', ''a[].item.b'', ''a[].item.b[].item.c'']
     = \<lparr>root_table = [],
        array_tables =
          [(''a'', [Tuple5 ''a[].item.b[].item.c[].item.x'' ''string'' None False (LogicalType None)]),
           (''a[].item.b'',
                   [Tuple5 ''a[].item.b[].item.c[].item.x'' ''string'' None False (LogicalType None)]),
           (''a[].item.b[].item.c'',
                   [Tuple5 ''a[].item.b[].item.c[].item.x'' ''string'' None False (LogicalType None),
                    Tuple5 ''a[].item.b[].item.c[].item.x'' ''string'' None False (LogicalType None)])]\<rparr>"
  by code_simp

section \<open>Properties of DDL generation\<close>

lemma enum_in_table: "dict_index AVRO_TO_HIVE_TYPE ''enum'' = Inr ''VARCHAR(100)''"
  by (simp add: dict_index_def AVRO_TO_HIVE_TYPE_def)

lemma enum_override_total: "\<exists>h. enum_override field_type hive_type = Inr h"
  by (simp add: enum_override_def enum_in_table)

lemma avro_to_hive_type_total:
  "as_tuple field_info = Some x \<Longrightarrow> \<exists>h. avro_to_hive_type field_info = Inr h"
proof (cases field_info)
  case (Tuple5 path field_type doc optional ex)
  then show ?thesis by (cases ex) (simp_all add: enum_override_total)
qed (simp_all add: enum_override_total)

lemma data_column_total:
  assumes "as_tuple field_info = Some x"
  shows "\<exists>c. data_column column_name field_info path field_type doc = Inr c
             \<and> col_role c = Data \<and> col_leaf c = Some path"
proof -
  obtain h where "avro_to_hive_type field_info = Inr h"
    using avro_to_hive_type_total [OF assms] by blast
  then show ?thesis by (simp add: data_column_def)
qed

lemma find_field_tuple:
  "find_field flds key = Some f \<Longrightarrow> \<exists>ft d opt. \<exists>p. as_tuple f = Some (p, ft, d, opt) \<and> Some p = key"
  by (auto simp: find_field_def find_Some_iff split: option.splits)

lemma fk_column_total: "\<exists>c. fk_column b = Inr c"
proof (cases "find_field (parent_fields b) (parent_key_path b)")
  case None
  then show ?thesis by (simp add: fk_column_def)
next
  case (Some f)
  then obtain x where "as_tuple f = Some x"
    by (blast dest: find_field_tuple)
  then obtain h where "avro_to_hive_type f = Inr h"
    by (blast dest: avro_to_hive_type_total)
  with Some show ?thesis by (simp add: fk_column_def)
qed

lemma key_columns_cases:
  "key_columns sel array_path flds = Inr [] \<or>
   (\<exists>k c. array_natural_keys sel array_path = Some k \<and> key_columns sel array_path flds = Inr [c]
      \<and> col_role c = NaturalKey \<and> col_leaf c = Some k)"
proof (cases "array_natural_keys sel array_path")
  case None
  then show ?thesis by (simp add: key_columns_def)
next
  case (Some k)
  show ?thesis
  proof (cases "find_field flds (Some k)")
    case None
    with Some show ?thesis by (simp add: key_columns_def)
  next
    case found: (Some f)
    then obtain x where "as_tuple f = Some x"
      by (blast dest: find_field_tuple)
    then obtain h where "avro_to_hive_type f = Inr h"
      by (blast dest: avro_to_hive_type_total)
    with Some found show ?thesis by (simp add: key_columns_def)
  qed
qed


lemma array_columns_total:
  "\<exists>ds. array_columns sel array_path flds = Inr ds
     \<and> (\<forall>d \<in> set ds. col_role d = Data
            \<and> (\<exists>p. col_leaf d = Some p \<and> array_natural_keys sel array_path \<noteq> Some p))"
proof (induction flds)
  case Nil
  show ?case by simp
next
  case (Cons field_info rest)
  then obtain ds where ds: "array_columns sel array_path rest = Inr ds"
    and ok: "\<forall>d \<in> set ds. col_role d = Data
            \<and> (\<exists>p. col_leaf d = Some p \<and> array_natural_keys sel array_path \<noteq> Some p)"
    by blast
  show ?case
  proof (cases "as_tuple field_info")
    case None
    with ds ok show ?thesis by simp
  next
    case (Some x)
    obtain path field_type doc optional where x: "x = (path, field_type, doc, optional)"
      by (cases x) auto
    show ?thesis
    proof (cases "array_natural_keys sel array_path = Some path")
      case True
      with Some x ds ok show ?thesis by simp
    next
      case False
      obtain c where c: "data_column (get_column_name (str_replace (array_path @ ''.'') [] path))
                           field_info path field_type doc = Inr c"
        and r: "col_role c = Data" and l: "col_leaf c = Some path"
        using data_column_total [OF Some] by blast
      from Some x False c ds have "array_columns sel array_path (field_info # rest) = Inr (c # ds)"
        by (simp add: Let_def)
      with ok r l False show ?thesis by auto
    qed
  qed
qed





lemma dict_append_keys: "fst ` set (dict_append k v d) = insert k (fst ` set d)"
  by (induction d) (simp, force)

lemma dict_setdefault_keys: "fst ` set (dict_setdefault k d) = insert k (fst ` set d)"
  by (induction d) (simp, force)

lemma nested_fields_keys: "fst ` set d \<subseteq> fst ` set (nested_fields ps n d)"
proof (induction ps arbitrary: d)
  case Nil
  show ?case by simp
next
  case (Cons p ps)
  have a: "fst ` set d \<subseteq> fst ` set (dict_append n p d)"
    by (simp add: dict_append_keys subset_insertI)
  have b: "fst ` set d \<subseteq> fst ` set (nested_fields ps n (dict_append n p d))"
    using a Cons [of "dict_append n p d"] by (rule subset_trans)
  show ?case
  proof (cases "as_tuple p")
    case None
    then show ?thesis using Cons [of d] by simp
  next
    case (Some x)
    then show ?thesis using Cons [of d] b by (cases x) simp
  qed
qed

lemma nested_arrays_keys: "fst ` set d \<subseteq> fst ` set (nested_arrays l a ps d)"
proof (induction l arbitrary: d)
  case Nil
  show ?case by simp
next
  case (Cons n l)
  have "fst ` set d \<subseteq> fst ` set (nested_arrays l a ps (nested_fields ps n d))"
    using nested_fields_keys [of d ps n] Cons [of "nested_fields ps n d"] by (rule subset_trans)
  then show ?case
    using Cons [of d] by simp
qed

lemma seed_arrays_keys: "set outer \<union> fst ` set d \<subseteq> fst ` set (seed_arrays outer sl ps d)"
proof (induction outer arbitrary: d)
  case Nil
  show ?case by simp
next
  case (Cons a outer)
  let ?d = "nested_arrays sl a ps (dict_setdefault a d)"
  have "insert a (fst ` set d) \<subseteq> fst ` set ?d"
    using nested_arrays_keys [of "dict_setdefault a d" sl a ps]
    by (simp add: dict_setdefault_keys)
  moreover have "set outer \<union> fst ` set ?d \<subseteq> fst ` set (seed_arrays outer sl ps ?d)"
    by (rule Cons)
  ultimately have "insert a (set outer) \<union> fst ` set d
                   \<subseteq> fst ` set (seed_arrays outer sl ps ?d)"
    by blast
  then show ?case by simp
qed

lemma selected_has_table:
  assumes "a \<in> set sl"
  shows "\<exists>flds. dict_index (array_tables (build_table_hierarchy ps sl)) a = Inr flds"
proof -
  obtain rf tb where p: "partition_paths ps sl ([], []) = (rf, tb)"
    by (cases "partition_paths ps sl ([], [])") auto
  have "a \<in> fst ` set (seed_arrays sl sl ps tb)"
    using assms seed_arrays_keys [of sl tb sl ps] by auto
  then have "map_of (seed_arrays sl sl ps tb) a \<noteq> None"
    by (simp add: map_of_eq_None_iff)
  then show ?thesis
    by (auto simp: build_table_hierarchy_def p dict_index_def)
qed


lemma find_parent_member:
  "find_parent l a (n, po) = (n', Some p) \<Longrightarrow> p \<in> set l \<or> po = Some p"
proof (induction l arbitrary: n po)
  case Nil
  then show ?case by simp
next
  case (Cons q l)
  then show ?case
    by (fastforce split: if_splits option.splits)
qed

lemma nested_parent_selected:
  assumes "nested_parent sel a = Some p"
  shows "p \<in> set (selected_arrays sel) \<and> array_natural_keys sel p \<noteq> None"
proof -
  obtain n po where f: "find_parent (selected_arrays sel) a (False, None) = (n, po)"
    by (cases "find_parent (selected_arrays sel) a (False, None)") auto
  with assms have "po = Some p" and k: "array_natural_keys sel p \<noteq> None"
    by (auto simp: nested_parent_def split: option.splits if_splits)
  with f find_parent_member [of "selected_arrays sel" a False None n p]
  show ?thesis by auto
qed

lemma array_binding_total:
  assumes "p \<in> set (selected_arrays sel)" and "array_natural_keys sel p \<noteq> None"
  shows "\<exists>b. array_binding sel
                (array_tables (build_table_hierarchy ps (selected_arrays sel))) p = Inr b"
proof -
  obtain flds where
    "dict_index (array_tables (build_table_hierarchy ps (selected_arrays sel))) p = Inr flds"
    using selected_has_table [OF assms(1)] by blast
  with assms(2) show ?thesis
    by (auto simp: array_binding_def)
qed

lemma fk_binding_total:
  assumes wf: "dom (array_natural_keys sel) \<subseteq> set (selected_arrays sel)"
  shows "\<exists>b. fk_binding sel (array_tables (build_table_hierarchy ps (selected_arrays sel)))
                root_fields nk a = Inr b"
proof (cases "nested_parent sel a")
  case (Some p)
  then have "p \<in> set (selected_arrays sel)" "array_natural_keys sel p \<noteq> None"
    using nested_parent_selected by blast+
  then show ?thesis
    using array_binding_total Some by (simp add: fk_binding_def)
next
  case None
  show ?thesis
  proof (cases "parent_child_relations sel a")
    case no_rel: None
    with None show ?thesis by (simp add: fk_binding_def)
  next
    case (Some rel)
    show ?thesis
    proof (cases "choice rel = ''Parent array's key'' \<and> array_natural_keys sel (parent rel) \<noteq> None")
      case True
      then have "parent rel \<in> set (selected_arrays sel)"
        using wf by (auto simp: dom_def)
      with True None Some show ?thesis
        using array_binding_total [of "parent rel" sel ps] by (simp add: fk_binding_def)
    next
      case False
      with None Some show ?thesis by (auto simp: fk_binding_def)
    qed
  qed
qed

lemma array_table_total:
  assumes "fk_binding sel tables root_fields nk a = Inr b"
  shows "\<exists>t fk ks ds. array_table sel tables root_fields nk a flds = Inr t
           \<and> fk_column b = Inr fk
           \<and> columns t = common_columns (common_fields_list sel) @ [fk] @ ks @ ds"
proof -
  obtain fk where fk: "fk_column b = Inr fk"
    using fk_column_total by blast
  obtain ks where ks: "key_columns sel a flds = Inr ks"
    using key_columns_cases [of sel a flds] by blast
  obtain ds where ds: "array_columns sel a flds = Inr ds"
    using array_columns_total by blast
  show ?thesis
    using assms fk ks ds by (simp add: array_table_def) blast
qed

lemma root_columns_total: "\<exists>r. root_columns flds key nk cols = Inr r"
proof (induction flds arbitrary: nk cols)
  case Nil
  show ?case by simp
next
  case (Cons f flds)
  show ?case
  proof (cases "as_tuple f")
    case None
    then show ?thesis using Cons by simp
  next
    case (Some x)
    obtain path field_type doc optional where x: "x = (path, field_type, doc, optional)"
      by (cases x) auto
    obtain c where "data_column (get_column_name path) f path field_type doc = Inr c"
      using data_column_total [OF Some] by blast
    with Some x show ?thesis using Cons by (simp add: Let_def)
  qed
qed

lemma array_ddls_total:
  assumes "\<And>a flds. \<exists>t. array_table sel tables root_fields nk a flds = Inr t"
  shows "\<exists>r. array_ddls sel tables root_fields nk items ddls = Inr r"
proof (induction items arbitrary: ddls)
  case Nil
  show ?case by simp
next
  case (Cons item items)
  obtain a flds where item: "item = (a, flds)"
    by (cases item) auto
  obtain t where "array_table sel tables root_fields nk a flds = Inr t"
    using assms by blast
  with item show ?case using Cons by simp
qed

lemma generate_ddl_total:
  assumes wf: "dom (array_natural_keys sel) \<subseteq> set (selected_arrays sel)"
  shows "\<exists>r. generate_ddl sel flat_paths = Inr r"
proof -
  let ?ts = "build_table_hierarchy flat_paths (selected_arrays sel)"
  obtain nk cols where rc: "root_columns (root_table ?ts) (natural_key sel) [] [] = Inr (nk, cols)"
    using root_columns_total [of "root_table ?ts" "natural_key sel" "[]" "[]"] by auto
  have "\<And>a flds. \<exists>t. array_table sel (array_tables ?ts) (root_table ?ts) nk a flds = Inr t"
  proof -
    fix a flds
    obtain b where "fk_binding sel (array_tables ?ts) (root_table ?ts) nk a = Inr b"
      using fk_binding_total [OF wf] by blast
    then show "\<exists>t. array_table sel (array_tables ?ts) (root_table ?ts) nk a flds = Inr t"
      using array_table_total by blast
  qed
  then obtain ddls where
    "array_ddls sel (array_tables ?ts) (root_table ?ts) nk (array_tables ?ts) [] = Inr ddls"
    using array_ddls_total by blast
  with rc show ?thesis
    by (simp add: generate_ddl_def Let_def)
qed

text \<open>
  Claim C4. DDL generation never raises, whatever the key selections are, as long as keys
  are selected for selected arrays only; and when the path selected as the parent's
  natural key has no leaf in the group that the foreign key refers to (the root group or
  the group of the parent array), the foreign-key column of the array table has the
  generic type \<open>VARCHAR(255)\<close>.
\<close>

theorem stale_key_fallback:
  fixes sel :: selection and flat_paths :: "path_info list"
  defines "ts \<equiv> build_table_hierarchy flat_paths (selected_arrays sel)"
  assumes wf: "dom (array_natural_keys sel) \<subseteq> set (selected_arrays sel)"
  shows "(\<exists>r. generate_ddl sel flat_paths = Inr r) \<and>
         (\<exists>b t. fk_binding sel (array_tables ts) (root_table ts) nk array_path = Inr b
             \<and> array_table sel (array_tables ts) (root_table ts) nk array_path flds = Inr t
             \<and> (find_field (parent_fields b) (parent_key_path b) = None \<longrightarrow>
                  columns t ! length (common_fields_list sel) =
                    \<lparr>col_role = ForeignKey, col_leaf = parent_key_path b,
                     col_name = parent_key_column b, col_type = ''VARCHAR(255)'',
                     col_comment = Some (''Foreign key to '' @ parent_table b)\<rparr>))"
proof
  show "\<exists>r. generate_ddl sel flat_paths = Inr r"
    using wf by (rule generate_ddl_total)
next
  obtain b where b: "fk_binding sel (array_tables ts) (root_table ts) nk array_path = Inr b"
    unfolding ts_def using fk_binding_total [OF wf] by blast
  obtain t fk ks ds where t: "array_table sel (array_tables ts) (root_table ts) nk array_path flds = Inr t"
    and fk: "fk_column b = Inr fk"
    and cols: "columns t = common_columns (common_fields_list sel) @ [fk] @ ks @ ds"
    using array_table_total [OF b] by blast
  have nth: "columns t ! length (common_fields_list sel) = fk"
    by (simp add: cols common_columns_def nth_append)
  have "find_field (parent_fields b) (parent_key_path b) = None \<Longrightarrow>
        fk = \<lparr>col_role = ForeignKey, col_leaf = parent_key_path b,
              col_name = parent_key_column b, col_type = ''VARCHAR(255)'',
              col_comment = Some (''Foreign key to '' @ parent_table b)\<rparr>"
    using fk by (simp add: fk_column_def)
  with b t nth show "\<exists>b t. fk_binding sel (array_tables ts) (root_table ts) nk array_path = Inr b
             \<and> array_table sel (array_tables ts) (root_table ts) nk array_path flds = Inr t
             \<and> (find_field (parent_fields b) (parent_key_path b) = None \<longrightarrow>
                  columns t ! length (common_fields_list sel) =
                    \<lparr>col_role = ForeignKey, col_leaf = parent_key_path b,
                     col_name = parent_key_column b, col_type = ''VARCHAR(255)'',
                     col_comment = Some (''Foreign key to '' @ parent_table b)\<rparr>)"
    by auto
qed

theorem stale_key_fallback_witness:
  "dom (array_natural_keys stale_selection) \<subseteq> set (selected_arrays stale_selection) \<and>
   extract_field_paths nested_schema [] (selected_arrays stale_selection) True = Inr stale_leaves \<and>
   find_field (root_table (build_table_hierarchy stale_leaves (selected_arrays stale_selection)))
     (natural_key stale_selection) = None \<and>
   generate_ddl stale_selection stale_leaves =
     Inr (\<lparr>table_name = ''r'',
            columns =
              [\<lparr>col_role = Common, col_leaf = None, col_name = ''run_id'',
                  col_type = ''STRING'', col_comment = None\<rparr>,
               \<lparr>col_role = Data, col_leaf = Some ''id'', col_name = ''id'',
                  col_type = ''VARCHAR(255)'', col_comment = None\<rparr>]\<rparr>,
          [(''r_a'',
            \<lparr>table_name = ''r_a'',
               columns =
                 [\<lparr>col_role = Common, col_leaf = None, col_name = ''run_id'',
                     col_type = ''STRING'', col_comment = None\<rparr>,
                  \<lparr>col_role = ForeignKey, col_leaf = Some ''order_id'',
                     col_name = [], col_type = ''VARCHAR(255)'',
                     col_comment = Some ''Foreign key to r''\<rparr>,
                  \<lparr>col_role = NaturalKey, col_leaf = Some ''a[].item.k'',
                     col_name = ''a_k'', col_type = ''INT'',
                     col_comment = Some ''Natural key for this array''\<rparr>,
                  \<lparr>col_role = Data, col_leaf = Some ''a[].item.b[]'',
                     col_name = ''a_b_json'', col_type = ''STRING'',
                     col_comment = None\<rparr>]\<rparr>)])"
proof -
  have wf: "dom (array_natural_keys stale_selection) \<subseteq> set (selected_arrays stale_selection)"
    by (simp add: stale_selection_def)
  have leaves: "extract_field_paths nested_schema [] (selected_arrays stale_selection) True
                  = Inr stale_leaves"
    by code_simp
  have stale: "find_field
       (root_table (build_table_hierarchy stale_leaves (selected_arrays stale_selection)))
       (natural_key stale_selection) = None"
    by code_simp
  have ddl: "generate_ddl stale_selection stale_leaves =
     Inr (\<lparr>table_name = ''r'',
            columns =
              [\<lparr>col_role = Common, col_leaf = None, col_name = ''run_id'',
                  col_type = ''STRING'', col_comment = None\<rparr>,
               \<lparr>col_role = Data, col_leaf = Some ''id'', col_name = ''id'',
                  col_type = ''VARCHAR(255)'', col_comment = None\<rparr>]\<rparr>,
          [(''r_a'',
            \<lparr>table_name = ''r_a'',
               columns =
                 [\<lparr>col_role = Common, col_leaf = None, col_name = ''run_id'',
                     col_type = ''STRING'', col_comment = None\<rparr>,
                  \<lparr>col_role = ForeignKey, col_leaf = Some ''order_id'',
                     col_name = [], col_type = ''VARCHAR(255)'',
                     col_comment = Some ''Foreign key to r''\<rparr>,
                  \<lparr>col_role = NaturalKey, col_leaf = Some ''a[].item.k'',
                     col_name = ''a_k'', col_type = ''INT'',
                     col_comment = Some ''Natural key for this array''\<rparr>,
                  \<lparr>col_role = Data, col_leaf = Some ''a[].item.b[]'',
                     col_name = ''a_b_json'', col_type = ''STRING'',
                     col_comment = None\<rparr>]\<rparr>)])"
    by code_simp
  have "\<exists>r. generate_ddl stale_selection stale_leaves = Inr r"
    using stale_key_fallback [OF wf, of stale_leaves "[]" "''a''" "[]"] by blast
  with wf leaves stale ddl show ?thesis
    by blast
qed






section \<open>Array leaves of the Schema Walker and Array Discovery\<close>












section \<open>The naming contract on field paths\<close>
















text \<open>
  The name of a string without any name character is empty: the contract's \<open>+\<close> needs
  a path that is built from field names.
\<close>

lemma get_column_name_empty: "get_column_name [] = [] \<and> get_column_name ''[].item'' = []"
  by code_simp



end
